theory Spec2Isabelle
  imports Complex_Main "HOL-Library.Sublist"
begin

section \<open>JavaScript values used by the dashboard\<close>

subsection \<open>Numbers\<close>

text \<open>
  A JavaScript number is \<open>NaN\<close>, an infinity or a finite value. Finite values are kept as
  exact rationals: rounding to binary64 is not modelled. The operations below are the ones
  the aggregation routine applies: \<open>+\<close>, \<open>-\<close>, \<open>/\<close> by a positive array length,
  \<open>\<le>\<close> and \<open>isNaN\<close>.
\<close>

datatype jsnum = NaN | Fin rat | PosInf | NegInf

fun isNaN :: "jsnum \<Rightarrow> bool" where
  "isNaN NaN = True"
| "isNaN (Fin _) = False"
| "isNaN PosInf = False"
| "isNaN NegInf = False"

fun js_neg :: "jsnum \<Rightarrow> jsnum" where
  "js_neg NaN = NaN"
| "js_neg (Fin x) = Fin (- x)"
| "js_neg PosInf = NegInf"
| "js_neg NegInf = PosInf"

fun js_add :: "jsnum \<Rightarrow> jsnum \<Rightarrow> jsnum" where
  "js_add NaN _ = NaN"
| "js_add _ NaN = NaN"
| "js_add (Fin x) (Fin y) = Fin (x + y)"
| "js_add (Fin _) PosInf = PosInf"
| "js_add (Fin _) NegInf = NegInf"
| "js_add PosInf (Fin _) = PosInf"
| "js_add NegInf (Fin _) = NegInf"
| "js_add PosInf PosInf = PosInf"
| "js_add NegInf NegInf = NegInf"
| "js_add PosInf NegInf = NaN"
| "js_add NegInf PosInf = NaN"

fun js_sub :: "jsnum \<Rightarrow> jsnum \<Rightarrow> jsnum" where
  "js_sub NaN _ = NaN"
| "js_sub _ NaN = NaN"
| "js_sub (Fin x) (Fin y) = Fin (x - y)"
| "js_sub (Fin _) PosInf = NegInf"
| "js_sub (Fin _) NegInf = PosInf"
| "js_sub PosInf (Fin _) = PosInf"
| "js_sub NegInf (Fin _) = NegInf"
| "js_sub PosInf PosInf = NaN"
| "js_sub NegInf NegInf = NaN"
| "js_sub PosInf NegInf = PosInf"
| "js_sub NegInf PosInf = NegInf"

text \<open>Division of a number by an array length; every call site guards \<open>length > 0\<close>.\<close>

fun js_div_length :: "jsnum \<Rightarrow> nat \<Rightarrow> jsnum" where
  "js_div_length NaN n = NaN"
| "js_div_length (Fin x) n = Fin (x / of_nat n)"
| "js_div_length PosInf n = PosInf"
| "js_div_length NegInf n = NegInf"

text \<open>The relational operator \<open>a <= b\<close>: false as soon as one side is \<open>NaN\<close>.\<close>

fun js_le :: "jsnum \<Rightarrow> jsnum \<Rightarrow> bool" where
  "js_le NaN _ = False"
| "js_le _ NaN = False"
| "js_le (Fin x) (Fin y) = (x \<le> y)"
| "js_le (Fin _) PosInf = True"
| "js_le (Fin _) NegInf = False"
| "js_le PosInf (Fin _) = False"
| "js_le NegInf (Fin _) = True"
| "js_le PosInf PosInf = True"
| "js_le NegInf NegInf = True"
| "js_le PosInf NegInf = False"
| "js_le NegInf PosInf = True"

subsection \<open>Strings\<close>

text \<open>
  Strings are lists of 8-bit characters. White space is the ASCII part of the language's
  white space and line terminators; letter case is ASCII letter case, every other character
  is its own lower-case form.
\<close>

definition truthy :: "string \<Rightarrow> bool" where
  "truthy s = (s \<noteq> [])"

definition is_ws :: "char \<Rightarrow> bool" where
  "is_ws c = (of_char c \<in> {9, 10, 11, 12, 13, 32 :: nat})"

definition trim :: "string \<Rightarrow> string" where
  "trim s = rev (dropWhile is_ws (rev (dropWhile is_ws s)))"

definition lower_char :: "char \<Rightarrow> char" where
  "lower_char c =
     (let n = of_char c :: nat in if 65 \<le> n \<and> n \<le> 90 then char_of (n + 32) else c)"

definition toLowerCase :: "string \<Rightarrow> string" where
  "toLowerCase s = map lower_char s"

text \<open>\<open>hay.includes(needle)\<close>: the needle starts at some position of the hay.\<close>

fun includes_str :: "string \<Rightarrow> string \<Rightarrow> bool" where
  "includes_str [] needle = (needle = [])"
| "includes_str (h # hay) needle =
     (take (length needle) (h # hay) = needle \<or> includes_str hay needle)"

subsection \<open>Numeric literals in strings\<close>

definition digit_of :: "char \<Rightarrow> nat option" where
  "digit_of c =
     (let n = of_char c :: nat in
      if 48 \<le> n \<and> n \<le> 57 then Some (n - 48)
      else if 97 \<le> n \<and> n \<le> 102 then Some (n - 87)
      else if 65 \<le> n \<and> n \<le> 70 then Some (n - 55)
      else None)"

definition is_radix_digit :: "nat \<Rightarrow> char \<Rightarrow> bool" where
  "is_radix_digit R c = (case digit_of c of None \<Rightarrow> False | Some d \<Rightarrow> d < R)"

fun digits_acc :: "nat \<Rightarrow> nat \<Rightarrow> string \<Rightarrow> nat option" where
  "digits_acc R acc [] = Some acc"
| "digits_acc R acc (c # cs) =
     (case digit_of c of
        None \<Rightarrow> None
      | Some d \<Rightarrow> if d < R then digits_acc R (acc * R + d) cs else None)"

text \<open>The value of a non-empty string of digits of radix \<open>R\<close>; \<open>None\<close> for anything else.\<close>

definition digits_value :: "nat \<Rightarrow> string \<Rightarrow> nat option" where
  "digits_value R s = (if s = [] then None else digits_acc R 0 s)"

definition pow10 :: "int \<Rightarrow> rat" where
  "pow10 e = (if 0 \<le> e then 10 ^ nat e else 1 / 10 ^ nat (- e))"

definition SignedInteger :: "string \<Rightarrow> int option" where
  "SignedInteger s =
     (case s of
        [] \<Rightarrow> None
      | c # t \<Rightarrow>
          if c = CHR ''+'' then map_option int (digits_value 10 t)
          else if c = CHR ''-'' then map_option (\<lambda>n. - int n) (digits_value 10 t)
          else map_option int (digits_value 10 s))"

text \<open>What follows the mantissa: nothing, or an exponent indicator and a signed integer.\<close>

definition ExponentPart :: "string \<Rightarrow> int option" where
  "ExponentPart s =
     (case s of
        [] \<Rightarrow> Some 0
      | c # t \<Rightarrow> if c = CHR ''e'' \<or> c = CHR ''E'' then SignedInteger t else None)"

text \<open>
  \<open>Infinity\<close>, or digits with an optional fraction and exponent; at least one digit before
  or after the point.
\<close>

definition StrUnsignedDecimalLiteral :: "string \<Rightarrow> jsnum" where
  "StrUnsignedDecimalLiteral s =
     (if s = ''Infinity'' then PosInf
      else
        let ip = takeWhile (is_radix_digit 10) s;
            r1 = dropWhile (is_radix_digit 10) s;
            dot = (r1 \<noteq> [] \<and> hd r1 = CHR ''.'');
            fp = (if dot then takeWhile (is_radix_digit 10) (tl r1) else []);
            r2 = (if dot then dropWhile (is_radix_digit 10) (tl r1) else r1)
        in if ip = [] \<and> fp = [] then NaN
           else case (digits_acc 10 0 (ip @ fp), ExponentPart r2) of
                  (Some m, Some e) \<Rightarrow> Fin (of_nat m * pow10 (e - int (length fp)))
                | _ \<Rightarrow> NaN)"

definition NonDecimalIntegerLiteral :: "string \<Rightarrow> jsnum option" where
  "NonDecimalIntegerLiteral s =
     (case s of
        c # d # t \<Rightarrow>
          if c \<noteq> CHR ''0'' then None
          else
            let R = (if d = CHR ''x'' \<or> d = CHR ''X'' then 16
                     else if d = CHR ''o'' \<or> d = CHR ''O'' then 8
                     else if d = CHR ''b'' \<or> d = CHR ''B'' then 2
                     else (0::nat))
            in if R = 0 then None
               else Some (case digits_value R t of None \<Rightarrow> NaN | Some n \<Rightarrow> Fin (of_nat n))
      | _ \<Rightarrow> None)"

text \<open>
  \<open>Number(s)\<close> on a string: white space is trimmed, the empty string is 0, a literal gives
  its value, everything else is \<open>NaN\<close>.
\<close>

definition Number :: "string \<Rightarrow> jsnum" where
  "Number s =
     (let t = trim s in
      if t = [] then Fin 0
      else case NonDecimalIntegerLiteral t of
             Some v \<Rightarrow> v
           | None \<Rightarrow>
               if hd t = CHR ''+'' then StrUnsignedDecimalLiteral (tl t)
               else if hd t = CHR ''-'' then js_neg (StrUnsignedDecimalLiteral (tl t))
               else StrUnsignedDecimalLiteral t)"

text \<open>
  \<open>parseInt(s)\<close> without a radix: leading white space and a sign are skipped, a \<open>0x\<close>
  prefix selects radix 16, and the longest prefix of digits is read; \<open>NaN\<close> without a digit.
\<close>

definition parseInt :: "string \<Rightarrow> jsnum" where
  "parseInt s =
     (let t = dropWhile is_ws s;
          neg = (t \<noteq> [] \<and> hd t = CHR ''-'');
          u = (if t \<noteq> [] \<and> (hd t = CHR ''+'' \<or> hd t = CHR ''-'') then tl t else t);
          hex = (case u of
                   c # d # _ \<Rightarrow> c = CHR ''0'' \<and> (d = CHR ''x'' \<or> d = CHR ''X'')
                 | _ \<Rightarrow> False);
          R = (if hex then 16 else 10);
          v = (if hex then drop 2 u else u)
      in case digits_value R (takeWhile (is_radix_digit R) v) of
           None \<Rightarrow> NaN
         | Some n \<Rightarrow> Fin (if neg then - of_nat n else of_nat n))"

subsection \<open>Objects used as dictionaries\<close>

text \<open>
  The values a property of a counting dictionary can hold or a read of it can give:
  \<open>undefined\<close>, the number \<open>NaN\<close>, a count, a string, or an object or function, kept as
  the string it converts to.
\<close>

datatype jsval = Undefined | NumNaN | Num nat | Str string | Obj string

fun truthy_val :: "jsval \<Rightarrow> bool" where
  "truthy_val Undefined = False"
| "truthy_val NumNaN = False"
| "truthy_val (Num n) = (n \<noteq> 0)"
| "truthy_val (Str s) = (s \<noteq> [])"
| "truthy_val (Obj _) = True"

text \<open>\<open>x + 1\<close>: addition on numbers, concatenation with \<open>"1"\<close> on everything else.\<close>

fun plus_one :: "jsval \<Rightarrow> jsval" where
  "plus_one Undefined = NumNaN"
| "plus_one NumNaN = NumNaN"
| "plus_one (Num n) = Num (n + 1)"
| "plus_one (Str s) = Str (s @ ''1'')"
| "plus_one (Obj t) = Str (t @ ''1'')"

text \<open>The number a value is converted to by an arithmetic operator.\<close>

fun to_number :: "jsval \<Rightarrow> jsnum" where
  "to_number Undefined = NaN"
| "to_number NumNaN = NaN"
| "to_number (Num n) = Fin (of_nat n)"
| "to_number (Str s) = Number s"
| "to_number (Obj t) = Number t"

text \<open>
  The dictionaries are created by the literal \<open>{}\<close>, so a read of a key the object does
  not have itself finds what every object inherits from \<open>Object.prototype\<close>: its functions
  and, under \<open>__proto__\<close>, the prototype object. \<open>inherited_text k\<close> is the string the
  inherited value of \<open>k\<close> converts to (for a function the text V8 prints), \<open>None\<close> when
  nothing is inherited under \<open>k\<close>.
\<close>

definition Object_prototype_functions :: "string list" where
  "Object_prototype_functions =
     [''constructor'', ''__defineGetter__'', ''__defineSetter__'', ''hasOwnProperty'',
      ''__lookupGetter__'', ''__lookupSetter__'', ''isPrototypeOf'', ''propertyIsEnumerable'',
      ''toString'', ''valueOf'', ''toLocaleString'']"

definition inherited_text :: "string \<Rightarrow> string option" where
  "inherited_text k =
     (if k = ''__proto__'' then Some ''[object Object]''
      else if k \<in> set Object_prototype_functions
      then Some (''function '' @ (if k = ''constructor'' then ''Object'' else k)
                 @ ''() { [native code] }'')
      else None)"

text \<open>
  An object is the list of its own properties in creation order. A write to an existing
  key keeps its position, a write to a new key appends it; a write to \<open>__proto__\<close> calls
  the inherited setter, which ignores a value that is not an object (the values written
  below are numbers and strings).
\<close>

type_synonym js_object = "(string \<times> jsval) list"

fun obj_get :: "js_object \<Rightarrow> string \<Rightarrow> jsval option" where
  "obj_get [] k = None"
| "obj_get ((k', v) # ps) k = (if k' = k then Some v else obj_get ps k)"

fun obj_set :: "js_object \<Rightarrow> string \<Rightarrow> jsval \<Rightarrow> js_object" where
  "obj_set [] k v = [(k, v)]"
| "obj_set ((k', v') # ps) k v = (if k' = k then (k, v) # ps else (k', v') # obj_set ps k v)"

definition obj_read :: "js_object \<Rightarrow> string \<Rightarrow> jsval" where
  "obj_read obj k =
     (case obj_get obj k of
        Some v \<Rightarrow> v
      | None \<Rightarrow> (case inherited_text k of Some t \<Rightarrow> Obj t | None \<Rightarrow> Undefined))"

definition obj_write :: "js_object \<Rightarrow> string \<Rightarrow> jsval \<Rightarrow> js_object" where
  "obj_write obj k v = (if k = ''__proto__'' then obj else obj_set obj k v)"

text \<open>\<open>obj[k] = (obj[k] || 0) + 1\<close>\<close>

definition count_key :: "js_object \<Rightarrow> string \<Rightarrow> js_object" where
  "count_key obj k =
     (let x = obj_read obj k;
          y = (if truthy_val x then x else Num 0)
      in obj_write obj k (plus_one y))"

section \<open>Capture records\<close>

text \<open>
  The status of a record is one of four strings (the union type of \<open>CaptureRecord\<close>, the
  check constraint of the table); \<open>status_str\<close> is the string it is at run time.
\<close>

datatype status = draft | submitted | approved | rejected

fun status_str :: "status \<Rightarrow> string" where
  "status_str draft = ''draft''"
| "status_str submitted = ''submitted''"
| "status_str approved = ''approved''"
| "status_str rejected = ''rejected''"

text \<open>The string fields shared by the entry form and by the \<open>data\<close> object of a record.\<close>

record measurements =
  location :: string
  date :: string
  time :: string
  temperature :: string
  humidity :: string
  windSpeed :: string
  waterLevel :: string
  waterQuality :: string
  observations :: string

record capture_data = measurements +
  photoUrls :: "string list"

text \<open>The state of the entry form: \<open>CaptureFormData\<close>, with the attached files.\<close>

record File =
  name :: string
  content :: string

record CaptureFormData = measurements +
  title :: string
  description :: string
  photos :: "File list"

text \<open>
  A row of the \<open>captures\<close> table as the entry form inserts it, and a fetched record: the
  row with the identifier and the creation time the store assigned. \<open>created_at\<close> is the
  instant \<open>new Date(capture.created_at).getTime()\<close> denotes, in milliseconds since the
  epoch. The description of a row may be \<open>null\<close>.
\<close>

record capture_row =
  user_id :: "string option"
  title :: string
  description :: "string option"
  data :: capture_data
  status :: status

record CaptureRecord = capture_row +
  capture_id :: string
  created_at :: int

section \<open>Aggregation: \<open>fetchAnalytics\<close>\<close>

text \<open>
  The host the routine runs on: \<open>clock k\<close> is the value of the \<open>k\<close>-th call of
  \<open>Date.now()\<close> during one run, \<open>month_label t\<close> the text
  \<open>toLocaleDateString('en-US', {month: 'short', year: 'numeric'})\<close> gives for the
  instant \<open>t\<close>.
\<close>

record host =
  clock :: "nat \<Rightarrow> int"
  month_label :: "int \<Rightarrow> string"

record AnalyticsData =
  totalCaptures :: nat
  capturesByStatus :: js_object
  averageTemperature :: jsnum
  averageHumidity :: jsnum
  averageWindSpeed :: jsnum
  averageWaterLevel :: jsnum
  waterQualityDistribution :: js_object
  capturesByMonth :: js_object
  topLocations :: "(string \<times> jsval) list"

text \<open>\<open>(Date.now() - captureDate.getTime()) / (1000 * 60 * 60 * 24)\<close>\<close>

definition daysAgo :: "int \<Rightarrow> CaptureRecord \<Rightarrow> jsnum" where
  "daysAgo now capture = Fin (of_int (now - created_at capture) / (1000 * 60 * 60 * 24))"

text \<open>
  The window filter. The callback reads the clock once for every record, so the \<open>k\<close>-th
  record is tested against the \<open>k\<close>-th reading.
\<close>

fun window_filter :: "(nat \<Rightarrow> int) \<Rightarrow> nat \<Rightarrow> string \<Rightarrow> CaptureRecord list \<Rightarrow> CaptureRecord list" where
  "window_filter clk k timeRange [] = []"
| "window_filter clk k timeRange (capture # captures) =
     (if js_le (daysAgo (clk k) capture) (parseInt timeRange)
      then capture # window_filter clk (Suc k) timeRange captures
      else window_filter clk (Suc k) timeRange captures)"

text \<open>\<open>forEach\<close> loops that count a key of every record, or of the records that have it.\<close>

definition count_all :: "(CaptureRecord \<Rightarrow> string) \<Rightarrow> CaptureRecord list \<Rightarrow> js_object" where
  "count_all key cs = fold (\<lambda>capture obj. count_key obj (key capture)) cs []"

definition count_truthy :: "(CaptureRecord \<Rightarrow> string) \<Rightarrow> CaptureRecord list \<Rightarrow> js_object" where
  "count_truthy key cs =
     fold (\<lambda>capture obj. if truthy (key capture) then count_key obj (key capture) else obj) cs []"

text \<open>
  The four averages are the same code on four fields: the records whose field is truthy
  and not \<open>NaN\<close> as a number, their sum by \<open>reduce\<close> from 0, divided by their number.
\<close>

definition valid_by :: "(capture_data \<Rightarrow> string) \<Rightarrow> CaptureRecord list \<Rightarrow> CaptureRecord list" where
  "valid_by field cs = filter (\<lambda>c. truthy (field (data c)) \<and> \<not> isNaN (Number (field (data c)))) cs"

definition sum_by :: "(capture_data \<Rightarrow> string) \<Rightarrow> CaptureRecord list \<Rightarrow> jsnum" where
  "sum_by field cs = fold (\<lambda>c sum. js_add sum (Number (field (data c)))) cs (Fin 0)"

definition average_by :: "(capture_data \<Rightarrow> string) \<Rightarrow> CaptureRecord list \<Rightarrow> jsnum" where
  "average_by field cs =
     (let valid = valid_by field cs in
      if length valid > 0 then js_div_length (sum_by field valid) (length valid) else Fin 0)"

text \<open>
  \<open>Object.entries\<close> lists an object's own properties: the keys that are array indices
  (canonical decimal strings below \<open>2^32 - 1\<close>) in ascending numeric order, then the other
  keys in creation order.
\<close>

definition array_index :: "string \<Rightarrow> nat option" where
  "array_index k =
     (case digits_value 10 k of
        None \<Rightarrow> None
      | Some n \<Rightarrow> if (k = ''0'' \<or> hd k \<noteq> CHR ''0'') \<and> n < 2 ^ 32 - 1 then Some n else None)"

definition Object_entries :: "js_object \<Rightarrow> (string \<times> jsval) list" where
  "Object_entries obj =
     sort_key (\<lambda>p. case array_index (fst p) of None \<Rightarrow> 0 | Some n \<Rightarrow> n)
       (filter (\<lambda>p. array_index (fst p) \<noteq> None) obj)
     @ filter (\<lambda>p. array_index (fst p) = None) obj"

text \<open>
  \<open>Array.prototype.sort\<close> with a comparison function is a stable sort: an element goes
  before the first later element it does not compare greater than. A comparison that
  gives \<open>NaN\<close> counts as 0. (When the comparison function is not a consistent ordering
  the language leaves the order to the engine; the model is then one stable insertion.)
\<close>

fun not_greater :: "jsnum \<Rightarrow> bool" where
  "not_greater NaN = True"
| "not_greater (Fin v) = (v \<le> 0)"
| "not_greater PosInf = False"
| "not_greater NegInf = True"

fun insert_by :: "('a \<Rightarrow> 'a \<Rightarrow> jsnum) \<Rightarrow> 'a \<Rightarrow> 'a list \<Rightarrow> 'a list" where
  "insert_by cmp x [] = [x]"
| "insert_by cmp x (y # ys) =
     (if not_greater (cmp x y) then x # y # ys else y # insert_by cmp x ys)"

definition js_sort :: "('a \<Rightarrow> 'a \<Rightarrow> jsnum) \<Rightarrow> 'a list \<Rightarrow> 'a list" where
  "js_sort cmp xs = foldr (insert_by cmp) xs []"

text \<open>\<open>(a, b) => b.count - a.count\<close>\<close>

definition by_count :: "string \<times> jsval \<Rightarrow> string \<times> jsval \<Rightarrow> jsnum" where
  "by_count a b = js_sub (to_number (snd b)) (to_number (snd a))"

text \<open>
  The value \<open>fetchAnalytics\<close> computes from the fetched records. An entry
  \<open>{location, count}\<close> of \<open>topLocations\<close> is the pair \<open>(location, count)\<close>.
\<close>

definition analytics :: "host \<Rightarrow> string \<Rightarrow> CaptureRecord list \<Rightarrow> AnalyticsData" where
  "analytics h timeRange captures =
     (let filteredCaptures = window_filter (clock h) 0 timeRange captures;
          locationCounts = count_truthy (\<lambda>capture. location (data capture)) filteredCaptures
      in \<lparr> totalCaptures = length filteredCaptures,
           capturesByStatus = count_all (\<lambda>capture. status_str (status capture)) filteredCaptures,
           averageTemperature = average_by temperature filteredCaptures,
           averageHumidity = average_by humidity filteredCaptures,
           averageWindSpeed = average_by windSpeed filteredCaptures,
           averageWaterLevel = average_by waterLevel filteredCaptures,
           waterQualityDistribution =
             count_truthy (\<lambda>capture. waterQuality (data capture)) filteredCaptures,
           capturesByMonth =
             count_all (\<lambda>capture. month_label h (created_at capture)) filteredCaptures,
           topLocations =
             take 5 (js_sort by_count (Object_entries locationCounts)) \<rparr>)"

text \<open>
  The component's state and the whole routine: an error response is logged and leaves
  \<open>analyticsData\<close> as it was; \<open>loading\<close> is cleared either way.
\<close>

record analytics_state =
  analyticsData :: "AnalyticsData option"
  loading :: bool

definition fetchAnalytics ::
  "host \<Rightarrow> string \<Rightarrow> string + CaptureRecord list \<Rightarrow> analytics_state \<Rightarrow> analytics_state" where
  "fetchAnalytics h timeRange response st =
     (case response of
        Inl e \<Rightarrow> st\<lparr>loading := False\<rparr>
      | Inr captures \<Rightarrow>
          st\<lparr>analyticsData := Some (analytics h timeRange captures), loading := False\<rparr>)"

section \<open>Listing: \<open>filteredCaptures\<close>\<close>

text \<open>
  The listing keeps the fetched records, the search term and the status filter; the list
  shown is recomputed from the three.
\<close>

definition matchesSearch :: "string \<Rightarrow> CaptureRecord \<Rightarrow> bool" where
  "matchesSearch searchTerm capture =
     (includes_str (toLowerCase (title capture)) (toLowerCase searchTerm)
      \<or> includes_str (toLowerCase (location (data capture))) (toLowerCase searchTerm))"

definition matchesStatus :: "string \<Rightarrow> CaptureRecord \<Rightarrow> bool" where
  "matchesStatus statusFilter capture =
     (statusFilter = ''all'' \<or> status_str (status capture) = statusFilter)"

definition filteredCaptures :: "CaptureRecord list \<Rightarrow> string \<Rightarrow> string \<Rightarrow> CaptureRecord list" where
  "filteredCaptures captures searchTerm statusFilter =
     filter (\<lambda>capture. matchesSearch searchTerm capture \<and> matchesStatus statusFilter capture)
       captures"

section \<open>Entry form: \<open>handleSubmit\<close>\<close>

subsection \<open>The services the form calls\<close>






subsection \<open>The submission\<close>





text \<open>
  The state of the form component, and \<open>handleSubmit\<close>: it takes the clock, the identifier
  of the signed-in user if there is one, the backend and the state, and gives the backend
  and the state when the handler has finished. The return to the listing two seconds
  after a success is outside this model.
\<close>

record form_state =
  formData :: CaptureFormData
  loading :: bool
  error :: "string option"
  success :: bool


section \<open>Notions the properties are stated with\<close>

text \<open>
  The numeric values of a field, in record order: the numbers of the records whose field is
  present (not the empty string) and is a number; and the arithmetic mean of a list of
  numbers, 0 for the empty list.
\<close>

definition numeric_values :: "(capture_data \<Rightarrow> string) \<Rightarrow> CaptureRecord list \<Rightarrow> jsnum list" where
  "numeric_values field cs =
     map (\<lambda>c. Number (field (data c)))
       (filter (\<lambda>c. field (data c) \<noteq> [] \<and> Number (field (data c)) \<noteq> NaN) cs)"

definition arithmetic_mean :: "jsnum list \<Rightarrow> jsnum" where
  "arithmetic_mean xs =
     (if xs = [] then Fin 0 else js_div_length (foldl js_add (Fin 0) xs) (length xs))"

text \<open>The number of records of a list whose key is \<open>k\<close>.\<close>

definition occurrences :: "(CaptureRecord \<Rightarrow> 'k) \<Rightarrow> 'k \<Rightarrow> CaptureRecord list \<Rightarrow> nat" where
  "occurrences key k cs = length (filter (\<lambda>c. key c = k) cs)"

text \<open>The categories the entry form offers for the water quality.\<close>

definition water_quality_categories :: "string list" where
  "water_quality_categories = [''excellent'', ''good'', ''fair'', ''poor'', ''very-poor'']"







text \<open>
  A key is plain when nothing is inherited under it. The count a value stands for, 0 for
  a value that is not a count.
\<close>

definition plain :: "string \<Rightarrow> bool" where
  "plain k = (inherited_text k = None)"

fun count_value :: "jsval \<Rightarrow> nat" where
  "count_value (Num n) = n"
| "count_value _ = 0"

fun is_count :: "jsval \<Rightarrow> bool" where
  "is_count (Num n) = True"
| "is_count _ = False"

definition cnt :: "jsval option \<Rightarrow> nat" where
  "cnt x = (case x of Some v \<Rightarrow> count_value v | None \<Rightarrow> 0)"

section \<open>Sample inputs\<close>

definition sample_data :: capture_data where
  "sample_data =
     \<lparr> location = ''Lake X'', date = ''2024-05-01'', time = ''12:00'', temperature = [],
       humidity = [], windSpeed = [], waterLevel = [], waterQuality = [], observations = [],
       photoUrls = [] \<rparr>"

definition sample_capture :: CaptureRecord where
  "sample_capture =
     \<lparr> user_id = Some ''u1'', title = ''Site A'', description = None, data = sample_data,
       status = draft, capture_id = ''c1'', created_at = 0 \<rparr>"

definition with_temperature :: "string \<Rightarrow> CaptureRecord" where
  "with_temperature s = sample_capture\<lparr>data := sample_data\<lparr>temperature := s\<rparr>\<rparr>"

definition with_waterQuality :: "string \<Rightarrow> CaptureRecord" where
  "with_waterQuality s = sample_capture\<lparr>data := sample_data\<lparr>waterQuality := s\<rparr>\<rparr>"

definition sample_host :: host where
  "sample_host = \<lparr> clock = (\<lambda>k. 1000), month_label = (\<lambda>t. ''Jan 1970'') \<rparr>"

definition with_location :: "string \<Rightarrow> CaptureRecord" where
  "with_location s = sample_capture\<lparr>data := sample_data\<lparr>location := s\<rparr>\<rparr>"

definition created_on :: "int \<Rightarrow> CaptureRecord" where
  "created_on t = sample_capture\<lparr>created_at := t\<rparr>"

definition host_at :: "int \<Rightarrow> host" where
  "host_at now = \<lparr> clock = (\<lambda>k. now), month_label = (\<lambda>t. ''Jan 1970'') \<rparr>"

definition seven_locations :: "CaptureRecord list" where
  "seven_locations = map with_location [''A'', ''B'', ''B'', ''C'', ''D'', ''E'', ''F'']"

definition three_dated :: "CaptureRecord list" where
  "three_dated = [created_on 777600000, created_on 172800000, created_on 259200000]"

definition two_statuses :: "CaptureRecord list" where
  "two_statuses = [sample_capture, sample_capture\<lparr>status := approved\<rparr>]"







definition inherited_locations :: "CaptureRecord list" where
  "inherited_locations = map with_location [''a'', ''constructor'', ''b'', ''b'']"

section \<open>Properties of the aggregation\<close>

subsection \<open>Counting dictionaries\<close>

lemma plain_not_proto: "plain k \<Longrightarrow> k \<noteq> ''__proto__''"
  by (auto simp: plain_def inherited_text_def)

lemma plain_status: "plain (status_str s)"
  by (cases s) (simp_all add: plain_def inherited_text_def Object_prototype_functions_def)

lemma obj_get_obj_set: "obj_get (obj_set obj k v) k' = (if k' = k then Some v else obj_get obj k')"
  by (induction obj) auto

lemma obj_get_count_key_other: "k' \<noteq> k \<Longrightarrow> obj_get (count_key obj k) k' = obj_get obj k'"
  by (simp add: count_key_def obj_write_def obj_get_obj_set Let_def)

lemma count_key_plain:
  assumes "plain k" "obj_get obj k = None \<or> (\<exists>n. obj_get obj k = Some (Num n))"
  shows "count_key obj k = obj_set obj k (Num (Suc (case obj_get obj k of Some v \<Rightarrow> count_value v | None \<Rightarrow> 0)))"
  using assms plain_not_proto [OF assms(1)]
  by (auto simp: count_key_def obj_write_def obj_read_def plain_def Let_def)

lemma count_key_plain_cnt:
  assumes "plain k" "obj_get obj k = None \<or> (\<exists>n. obj_get obj k = Some (Num n))"
  shows "count_key obj k = obj_set obj k (Num (Suc (cnt (obj_get obj k))))"
  using count_key_plain [OF assms] by (simp add: cnt_def)

lemma keys_obj_set: "map fst (obj_set obj k v) = (if k \<in> fst ` set obj then map fst obj else map fst obj @ [k])"
proof (induction obj)
  case Nil
  show ?case by simp
next
  case (Cons p obj)
  obtain k' v' where p: "p = (k', v')" by (cases p)
  show ?case using Cons by (cases "k' = k") (force simp: p)+
qed

lemma keys_of_obj_set: "fst ` set (obj_set obj k v) = insert k (fst ` set obj)"
proof (cases "k \<in> fst ` set obj")
  case True
  then have "set (map fst (obj_set obj k v)) = set (map fst obj)"
    by (simp only: keys_obj_set if_True)
  with True show ?thesis by (simp add: insert_absorb)
next
  case False
  then have "set (map fst (obj_set obj k v)) = set (map fst obj @ [k])"
    by (simp only: keys_obj_set if_False)
  then show ?thesis by simp
qed

lemma distinct_count_key: "distinct (map fst obj) \<Longrightarrow> distinct (map fst (count_key obj k))"
  by (simp add: count_key_def obj_write_def keys_obj_set Let_def)

lemma obj_get_all_counts:
  "list_all is_count (map snd obj) \<Longrightarrow> obj_get obj k = None \<or> (\<exists>n. obj_get obj k = Some (Num n))"
proof (induction obj)
  case Nil
  show ?case by simp
next
  case (Cons p obj)
  obtain k' v' where p: "p = (k', v')" by (cases p)
  from Cons.prems p obtain n where "v' = Num n" by (cases v') simp_all
  with Cons p show ?case by auto
qed

lemma sum_obj_set:
  "sum_list (map (\<lambda>p. count_value (snd p)) (obj_set obj k (Num (Suc (cnt (obj_get obj k))))))
     = Suc (sum_list (map (\<lambda>p. count_value (snd p)) obj))"
  by (induction obj) (auto simp: cnt_def)

lemma all_counts_obj_set:
  "list_all is_count (map snd obj) \<Longrightarrow> list_all is_count (map snd (obj_set obj k (Num n)))"
  by (induction obj) auto

lemma count_key_counts:
  assumes "plain k" "list_all is_count (map snd obj)"
  shows "list_all is_count (map snd (count_key obj k))"
    and "sum_list (map (\<lambda>p. count_value (snd p)) (count_key obj k)) = Suc (sum_list (map (\<lambda>p. count_value (snd p)) obj))"
  using count_key_plain_cnt [OF assms(1) obj_get_all_counts [OF assms(2)]] assms(2)
  by (simp_all add: all_counts_obj_set sum_obj_set)

lemma fold_count_key_counts:
  assumes "\<And>c. plain (key c)" "list_all is_count (map snd acc)"
  shows "list_all is_count (map snd (fold (\<lambda>c obj. count_key obj (key c)) cs acc))
       \<and> sum_list (map (\<lambda>p. count_value (snd p)) (fold (\<lambda>c obj. count_key obj (key c)) cs acc))
           = sum_list (map (\<lambda>p. count_value (snd p)) acc) + length cs"
  using assms(2)
proof (induction cs arbitrary: acc)
  case Nil
  then show ?case by simp
next
  case (Cons c cs)
  from count_key_counts [OF assms(1) Cons.prems, of c] Cons.IH [of "count_key acc (key c)"]
  show ?case by simp
qed

lemma count_all_counts:
  assumes "\<And>c. plain (key c)"
  shows "list_all is_count (map snd (count_all key cs))"
    and "sum_list (map (\<lambda>p. count_value (snd p)) (count_all key cs)) = length cs"
  using fold_count_key_counts [of key "[]" cs] assms by (simp_all add: count_all_def)

lemma distinct_fold_count_key:
  "distinct (map fst acc) \<Longrightarrow> distinct (map fst (fold (\<lambda>c obj. count_key obj (key c)) cs acc))"
  by (induction cs arbitrary: acc) (simp_all add: distinct_count_key)

lemma distinct_count_all: "distinct (map fst (count_all key cs))"
  by (simp add: count_all_def distinct_fold_count_key)

lemma obj_get_fold_truthy:
  assumes "plain k" "obj_get acc k = None \<or> (\<exists>n. obj_get acc k = Some (Num n))"
  shows "obj_get (fold (\<lambda>c obj. if truthy (key c) then count_key obj (key c) else obj) cs acc) k =
     (if obj_get acc k = None \<and> (\<not> truthy k \<or> occurrences key k cs = 0) then None
      else Some (Num (cnt (obj_get acc k) + (if truthy k then occurrences key k cs else 0))))"
  using assms(2)
proof (induction cs arbitrary: acc)
  case Nil
  then show ?case by (auto simp: occurrences_def cnt_def)
next
  case (Cons c cs)
  show ?case
  proof (cases "truthy (key c) \<and> key c = k")
    case True
    then have tk: "truthy k" and kc: "key c = k" by auto
    have a: "count_key acc k = obj_set acc k (Num (Suc (cnt (obj_get acc k))))"
      by (rule count_key_plain_cnt [OF assms(1) Cons.prems])
    have g: "obj_get (count_key acc k) k = Some (Num (Suc (cnt (obj_get acc k))))"
      by (simp add: a obj_get_obj_set)
    have st: "fold (\<lambda>c obj. if truthy (key c) then count_key obj (key c) else obj) (c # cs) acc
          = fold (\<lambda>c obj. if truthy (key c) then count_key obj (key c) else obj) cs (count_key acc k)"
      using tk kc by simp
    have oc: "occurrences key k (c # cs) = Suc (occurrences key k cs)"
      using kc by (simp add: occurrences_def)
    have "obj_get (fold (\<lambda>c obj. if truthy (key c) then count_key obj (key c) else obj) cs (count_key acc k)) k
        = Some (Num (Suc (cnt (obj_get acc k)) + occurrences key k cs))"
      using Cons.IH [of "count_key acc k"] g tk by (simp add: cnt_def)
    then show ?thesis
      unfolding st oc using tk by simp
  next
    case False
    then have "truthy (key c) \<Longrightarrow> key c \<noteq> k" by blast
    then have g: "truthy (key c) \<Longrightarrow> obj_get (count_key acc (key c)) k = obj_get acc k"
      by (simp add: obj_get_count_key_other)
    have oc: "occurrences key k (c # cs) = occurrences key k cs \<or> \<not> truthy k"
      using False by (auto simp: occurrences_def)
    show ?thesis
    proof (cases "truthy (key c)")
      case True
      from Cons.prems g [OF True] have "obj_get (count_key acc (key c)) k = None
          \<or> (\<exists>n. obj_get (count_key acc (key c)) k = Some (Num n))" by simp
      from Cons.IH [OF this] True g [OF True] oc show ?thesis
        by auto
    next
      case f: False
      with Cons.IH [OF Cons.prems] oc show ?thesis
        by auto
    qed
  qed
qed

lemma obj_get_count_truthy:
  "plain k \<Longrightarrow> obj_get (count_truthy key cs) k =
     (if k \<noteq> [] \<and> 0 < occurrences key k cs then Some (Num (occurrences key k cs)) else None)"
  unfolding count_truthy_def
  by (subst obj_get_fold_truthy) (simp_all add: cnt_def truthy_def)

lemma distinct_fold_truthy:
  "distinct (map fst acc) \<Longrightarrow>
   distinct (map fst (fold (\<lambda>c obj. if truthy (key c) then count_key obj (key c) else obj) cs acc))"
  by (induction cs arbitrary: acc) (simp_all add: distinct_count_key)

lemma distinct_count_truthy: "distinct (map fst (count_truthy key cs))"
  by (simp add: count_truthy_def distinct_fold_truthy)

lemma keys_count_key: "fst ` set (count_key obj k) \<subseteq> insert k (fst ` set obj)"
  by (cases "k = ''__proto__''") (simp_all add: count_key_def obj_write_def Let_def keys_of_obj_set subset_insertI)

lemma keys_fold_truthy:
  "fst ` set (fold (\<lambda>c obj. if truthy (key c) then count_key obj (key c) else obj) cs acc)
     \<subseteq> fst ` set acc \<union> key ` set cs"
proof (induction cs arbitrary: acc)
  case Nil
  show ?case by simp
next
  case (Cons c cs)
  let ?acc = "if truthy (key c) then count_key acc (key c) else acc"
  have "fst ` set ?acc \<subseteq> insert (key c) (fst ` set acc)"
    using keys_count_key [of acc "key c"] by auto
  moreover have "fst ` set (fold (\<lambda>c obj. if truthy (key c) then count_key obj (key c) else obj) cs ?acc)
      \<subseteq> fst ` set ?acc \<union> key ` set cs"
    by (rule Cons.IH)
  moreover have "fold (\<lambda>c obj. if truthy (key c) then count_key obj (key c) else obj) (c # cs) acc
      = fold (\<lambda>c obj. if truthy (key c) then count_key obj (key c) else obj) cs ?acc"
    by simp
  ultimately show ?case
    by (simp only: set_simps image_insert) blast
qed

lemma keys_count_truthy: "fst ` set (count_truthy key cs) \<subseteq> key ` set cs"
  using keys_fold_truthy [of key cs "[]"] by (simp add: count_truthy_def)

lemma obj_get_member: "distinct (map fst obj) \<Longrightarrow> (k, v) \<in> set obj \<Longrightarrow> obj_get obj k = Some v"
  by (induction obj) (auto simp: image_iff)

lemma entries_plain:
  assumes "\<forall>c\<in>set cs. plain (key c)" "e \<in> set (count_truthy key cs)"
  shows "fst e \<noteq> [] \<and> snd e = Num (occurrences key (fst e) cs)"
proof -
  from assms(2) have "fst e \<in> key ` set cs" using keys_count_truthy [of key cs] by auto
  with assms(1) have p: "plain (fst e)" by auto
  from assms(2) have "(fst e, snd e) \<in> set (count_truthy key cs)" by simp
  then have "obj_get (count_truthy key cs) (fst e) = Some (snd e)"
    by (rule obj_get_member [OF distinct_count_truthy])
  then show ?thesis
    by (simp add: obj_get_count_truthy [OF p] split: if_splits)
qed

subsection \<open>The fields of the computed value\<close>

lemma analytics_fields:
  "averageTemperature (analytics h tr cs) = average_by temperature (window_filter (clock h) 0 tr cs)"
  "averageHumidity (analytics h tr cs) = average_by humidity (window_filter (clock h) 0 tr cs)"
  "averageWindSpeed (analytics h tr cs) = average_by windSpeed (window_filter (clock h) 0 tr cs)"
  "averageWaterLevel (analytics h tr cs) = average_by waterLevel (window_filter (clock h) 0 tr cs)"
  "totalCaptures (analytics h tr cs) = length (window_filter (clock h) 0 tr cs)"
  "capturesByStatus (analytics h tr cs)
     = count_all (\<lambda>c. status_str (status c)) (window_filter (clock h) 0 tr cs)"
  "waterQualityDistribution (analytics h tr cs)
     = count_truthy (\<lambda>c. waterQuality (data c)) (window_filter (clock h) 0 tr cs)"
  "topLocations (analytics h tr cs)
     = take 5 (js_sort by_count
         (Object_entries (count_truthy (\<lambda>c. location (data c)) (window_filter (clock h) 0 tr cs))))"
  by (simp_all add: analytics_def Let_def)

text \<open>
  C1. After \<open>fetchAnalytics\<close> has run on any fetched list and any time window, the status
  groups are the entries of \<open>capturesByStatus\<close>, one for each key, every entry holds a
  count, and the counts add up to the total count, which is the number of records the
  window filter kept.
\<close>

theorem status_counts_sum_to_total:
  "\<exists>a. analyticsData (fetchAnalytics h timeRange (Inr captures) st) = Some a
      \<and> distinct (map fst (capturesByStatus a))
      \<and> list_all is_count (map snd (capturesByStatus a))
      \<and> sum_list (map (\<lambda>p. count_value (snd p)) (capturesByStatus a)) = totalCaptures a
      \<and> totalCaptures a = length (window_filter (clock h) 0 timeRange captures)"
  by (simp add: fetchAnalytics_def analytics_fields distinct_count_all
        count_all_counts [of "\<lambda>c. status_str (status c)", OF plain_status])

subsection \<open>Averages\<close>

lemma isNaN_iff: "isNaN x \<longleftrightarrow> x = NaN"
  by (cases x) simp_all

lemma fold_add_foldl:
  "fold (\<lambda>c sum. js_add sum (g c)) cs z = foldl js_add z (map g cs)"
  by (induction cs arbitrary: z) simp_all

lemma valid_by_filter:
  "valid_by field cs = filter (\<lambda>c. field (data c) \<noteq> [] \<and> Number (field (data c)) \<noteq> NaN) cs"
  by (simp add: valid_by_def truthy_def isNaN_iff)

lemma numeric_values_valid: "numeric_values field cs = map (\<lambda>c. Number (field (data c))) (valid_by field cs)"
  by (simp add: numeric_values_def valid_by_filter)

lemma average_by_mean: "average_by field cs = arithmetic_mean (numeric_values field cs)"
  by (simp add: average_by_def arithmetic_mean_def numeric_values_valid sum_by_def fold_add_foldl Let_def)



lemma Number_bad: "Number ''bad'' = NaN" by code_simp




text \<open>
  C9. A field without a numeric value among the records the window filter kept has the
  average 0, for each of the four fields.
\<close>

theorem mean_zero_without_valid_values:
  "(let kept = window_filter (clock h) 0 timeRange captures; a = analytics h timeRange captures in
      (numeric_values temperature kept = [] \<longrightarrow> averageTemperature a = Fin 0)
    \<and> (numeric_values humidity kept = [] \<longrightarrow> averageHumidity a = Fin 0)
    \<and> (numeric_values windSpeed kept = [] \<longrightarrow> averageWindSpeed a = Fin 0)
    \<and> (numeric_values waterLevel kept = [] \<longrightarrow> averageWaterLevel a = Fin 0))"
  by (simp add: Let_def analytics_fields average_by_mean arithmetic_mean_def)

theorem mean_zero_without_valid_values_witness:
  "(let kept = window_filter (clock sample_host) 0 ''7'' [with_temperature ''bad''];
        a = analytics sample_host ''7'' [with_temperature ''bad''] in
      kept = [with_temperature ''bad'']
    \<and> numeric_values temperature kept = [] \<and> averageTemperature a = Fin 0
    \<and> numeric_values humidity kept = [] \<and> averageHumidity a = Fin 0
    \<and> numeric_values windSpeed kept = [] \<and> averageWindSpeed a = Fin 0
    \<and> numeric_values waterLevel kept = [] \<and> averageWaterLevel a = Fin 0)"
proof -
  have k: "window_filter (clock sample_host) 0 ''7'' [with_temperature ''bad''] = [with_temperature ''bad'']"
    by code_simp
  have v: "numeric_values temperature [with_temperature ''bad''] = []"
     "numeric_values humidity [with_temperature ''bad''] = []"
     "numeric_values windSpeed [with_temperature ''bad''] = []"
     "numeric_values waterLevel [with_temperature ''bad''] = []"
    by (simp_all add: numeric_values_def with_temperature_def sample_capture_def sample_data_def Number_bad)
  show ?thesis
    using mean_zero_without_valid_values [of sample_host "''7''" "[with_temperature ''bad'']"] k v
    by (simp add: Let_def)
qed

subsection \<open>Water quality\<close>

text \<open>
  C10, as the code has it. The distribution has one entry for each key. For every plain
  key, it has an entry exactly when the key is a non-empty string that is the water
  quality of some record the window filter kept, and the entry is the number of those
  records: records with the empty string are left out, and a string outside the five
  categories of the form is counted under its own key.
\<close>

theorem water_quality_counts_every_nonempty_value:
  "(let kept = window_filter (clock h) 0 timeRange captures;
        dist = waterQualityDistribution (analytics h timeRange captures);
        n = (\<lambda>k. occurrences (\<lambda>c. waterQuality (data c)) k kept) in
      distinct (map fst dist)
    \<and> (\<forall>k. inherited_text k = None \<longrightarrow>
          obj_get dist k = (if k \<noteq> [] \<and> 0 < n k then Some (Num (n k)) else None)))"
  by (simp add: Let_def analytics_fields obj_get_count_truthy distinct_count_truthy plain_def)

theorem water_quality_counts_every_nonempty_value_witness:
  "inherited_text ''murky'' = None
   \<and> obj_get (waterQualityDistribution (analytics sample_host ''7'' [with_waterQuality ''murky''])) ''murky''
       = Some (Num 1)"
proof -
  have p: "inherited_text ''murky'' = None" by code_simp
  have k: "window_filter (clock sample_host) 0 ''7'' [with_waterQuality ''murky''] = [with_waterQuality ''murky'']"
    by code_simp
  have o: "occurrences (\<lambda>c. waterQuality (data c)) ''murky'' [with_waterQuality ''murky''] = 1"
    by (simp add: occurrences_def with_waterQuality_def)
  from water_quality_counts_every_nonempty_value [of sample_host "''7''" "[with_waterQuality ''murky'']",
      unfolded Let_def k] p
  have "obj_get (waterQualityDistribution (analytics sample_host ''7'' [with_waterQuality ''murky''])) ''murky''
       = (if ''murky'' \<noteq> [] \<and> 0 < occurrences (\<lambda>c. waterQuality (data c)) ''murky'' [with_waterQuality ''murky'']
          then Some (Num (occurrences (\<lambda>c. waterQuality (data c)) ''murky'' [with_waterQuality ''murky''])) else None)"
    by blast
  with p show ?thesis by (simp add: o)
qed

text \<open>
  The claim as stated fails: a record whose water quality is \<open>murky\<close>, which is none of
  the five categories, is counted.
\<close>

theorem water_quality_invalid_counted:
  "''murky'' \<notin> set water_quality_categories
   \<and> obj_get (waterQualityDistribution (analytics sample_host ''7'' [with_waterQuality ''murky''])) ''murky''
       = Some (Num 1)"
  by code_simp

subsection \<open>The time window\<close>

lemma js_le_daysAgo:
  "js_le (daysAgo now c) (Fin (of_int w)) \<longleftrightarrow> now - created_at c \<le> w * 86400000"
proof -
  have "(of_int (now - created_at c) / 86400000 \<le> (of_int w :: rat))
        \<longleftrightarrow> (of_int (now - created_at c) :: rat) \<le> of_int (w * 86400000)"
    by (simp add: pos_divide_le_eq)
  also have "\<dots> \<longleftrightarrow> now - created_at c \<le> w * 86400000"
    by (rule of_int_le_iff)
  finally show ?thesis by (simp add: daysAgo_def)
qed

lemma window_filter_zip:
  "window_filter clk k tr cs
     = map fst (filter (\<lambda>(c, i). js_le (daysAgo (clk i) c) (parseInt tr)) (zip cs [k..<k + length cs]))"
proof (induction cs arbitrary: k)
  case Nil
  show ?case by simp
next
  case (Cons c cs)
  have "k < k + length (c # cs)" by simp
  then have "[k..<k + length (c # cs)] = k # [Suc k..<k + length (c # cs)]"
    by (rule upt_conv_Cons)
  then have "[k..<k + length (c # cs)] = k # [Suc k..<Suc k + length cs]"
    by simp
  then show ?case by (simp add: Cons.IH)
qed

lemma window_filter_const:
  assumes "\<forall>i<length cs. clk (k + i) = now"
  shows "window_filter clk k tr cs = filter (\<lambda>c. js_le (daysAgo now c) (parseInt tr)) cs"
  using assms
proof (induction cs arbitrary: k)
  case Nil
  show ?case by simp
next
  case (Cons c cs)
  have "clk k = now" using Cons.prems by (metis add.right_neutral length_greater_0_conv list.distinct(1))
  moreover have "\<forall>i<length cs. clk (Suc k + i) = now"
    using Cons.prems by (metis Suc_less_eq add_Suc_right add_Suc length_Cons)
  ultimately show ?case using Cons.IH[of "Suc k"] by simp
qed

lemma parseInt_ranges:
  "parseInt ''7'' = Fin (of_int 7)" "parseInt ''30'' = Fin (of_int 30)"
  "parseInt ''90'' = Fin (of_int 90)" "parseInt ''365'' = Fin (of_int 365)"
  by code_simp+

lemma parseInt_range:
  "(tr, w) \<in> {(''7'', 7), (''30'', 30), (''90'', 90), (''365'', 365)} \<Longrightarrow> parseInt tr = Fin (of_int w)"
  using parseInt_ranges by auto

text \<open>
  C5. For a window of 7, 30, 90 or 365 days the filter keeps exactly the records created
  at most that many days (of 86400000 ms) before the clock reading they are tested against,
  the \<open>k\<close>-th record against the \<open>k\<close>-th reading of the run. When the readings of a run are
  the same instant \<open>now\<close>, the kept records are those created at most \<open>w\<close> days before
  \<open>now\<close>, and the total is their number.
\<close>

theorem window_keeps_records_within_days:
  "(timeRange, w) \<in> {(''7'', 7), (''30'', 30), (''90'', 90), (''365'', 365)} \<longrightarrow>
     window_filter (clock h) 0 timeRange captures
       = map fst (filter (\<lambda>(c, k). clock h k - created_at c \<le> w * (1000 * 60 * 60 * 24))
                    (zip captures [0..<length captures]))
     \<and> ((\<forall>k<length captures. clock h k = now) \<longrightarrow>
          window_filter (clock h) 0 timeRange captures
            = filter (\<lambda>c. now - created_at c \<le> w * (1000 * 60 * 60 * 24)) captures
          \<and> totalCaptures (analytics h timeRange captures)
            = length (filter (\<lambda>c. now - created_at c \<le> w * (1000 * 60 * 60 * 24)) captures))"
proof (intro impI conjI)
  assume r: "(timeRange, w) \<in> {(''7'', 7), (''30'', 30), (''90'', 90), (''365'', 365)}"
  have p: "parseInt timeRange = Fin (of_int w)" by (rule parseInt_range [OF r])
  show "window_filter (clock h) 0 timeRange captures
       = map fst (filter (\<lambda>(c, k). clock h k - created_at c \<le> w * (1000 * 60 * 60 * 24))
                    (zip captures [0..<length captures]))"
    by (simp add: window_filter_zip p js_le_daysAgo)
  assume c: "\<forall>k<length captures. clock h k = now"
  show f: "window_filter (clock h) 0 timeRange captures
            = filter (\<lambda>c. now - created_at c \<le> w * (1000 * 60 * 60 * 24)) captures"
    using window_filter_const [of captures "clock h" 0 now timeRange] c
    by (simp add: p js_le_daysAgo)
  show "totalCaptures (analytics h timeRange captures)
            = length (filter (\<lambda>c. now - created_at c \<le> w * (1000 * 60 * 60 * 24)) captures)"
    by (simp add: analytics_fields f)
qed

text \<open>
  Three records created 1, 8 and 7 days before the fetch, window 7: the first and the
  third are kept and the total is 2.
\<close>

theorem window_keeps_records_within_days_witness:
  "(''7'', 7) \<in> {(''7'', 7), (''30'', 30), (''90'', 90), (''365'', 365 :: int)}
   \<and> map (clock (host_at 864000000)) [0..<length three_dated] = [864000000, 864000000, 864000000]
   \<and> window_filter (clock (host_at 864000000)) 0 ''7'' three_dated
       = [created_on 777600000, created_on 259200000]
   \<and> totalCaptures (analytics (host_at 864000000) ''7'' three_dated) = 2"
proof -
  have r: "(''7'', 7) \<in> {(''7'', 7), (''30'', 30), (''90'', 90), (''365'', 365 :: int)}"
    by simp
  have c: "\<forall>k<length three_dated. clock (host_at 864000000) k = 864000000"
    by (simp add: host_at_def)
  have f: "filter (\<lambda>c. 864000000 - created_at c \<le> 7 * (1000 * 60 * 60 * 24)) three_dated
     = [created_on 777600000, created_on 259200000]"
    by (simp add: three_dated_def created_on_def)
  from window_keeps_records_within_days [of "''7''" 7 "host_at 864000000" three_dated 864000000] r c
  have "window_filter (clock (host_at 864000000)) 0 ''7'' three_dated
          = filter (\<lambda>c. 864000000 - created_at c \<le> 7 * (1000 * 60 * 60 * 24)) three_dated"
    and "totalCaptures (analytics (host_at 864000000) ''7'' three_dated)
          = length (filter (\<lambda>c. 864000000 - created_at c \<le> 7 * (1000 * 60 * 60 * 24)) three_dated)"
    by blast+
  then have "window_filter (clock (host_at 864000000)) 0 ''7'' three_dated
          = [created_on 777600000, created_on 259200000]"
    and "totalCaptures (analytics (host_at 864000000) ''7'' three_dated) = 2"
    unfolding f by simp_all
  moreover have "map (clock (host_at 864000000)) [0..<length three_dated]
      = [864000000, 864000000, 864000000]"
    by (simp add: host_at_def three_dated_def upt_rec)
  ultimately show ?thesis using r by blast
qed

subsection \<open>Top locations\<close>

lemma by_count_counts:
  "not_greater (by_count (k, Num m) (k', Num n)) \<longleftrightarrow> n \<le> m"
  by (simp add: by_count_def)

lemma insert_by_counts:
  "is_count (snd x) \<Longrightarrow> list_all is_count (map snd ys) \<Longrightarrow>
   insert_by by_count x ys = insort_key (\<lambda>p. - int (count_value (snd p))) x ys"
proof (induction ys)
  case Nil
  show ?case by simp
next
  case (Cons y ys)
  obtain k m where x: "x = (k, Num m)" using Cons.prems(1) by (cases x; cases "snd x") auto
  obtain k' n where y: "y = (k', Num n)" using Cons.prems(2) by (cases y; cases "snd y") auto
  from Cons show ?case by (simp add: x y by_count_counts)
qed

lemma js_sort_counts:
  "list_all is_count (map snd xs) \<Longrightarrow>
   js_sort by_count xs = sort_key (\<lambda>p. - int (count_value (snd p))) xs"
proof (induction xs)
  case Nil
  show ?case by (simp add: js_sort_def)
next
  case (Cons x xs)
  then have ih: "js_sort by_count xs = sort_key (\<lambda>p. - int (count_value (snd p))) xs" by simp
  have "list_all is_count (map snd (sort_key (\<lambda>p. - int (count_value (snd p))) xs))"
    using Cons.prems by (simp add: list_all_iff)
  with Cons.prems have "insert_by by_count x (sort_key (\<lambda>p. - int (count_value (snd p))) xs)
      = insort_key (\<lambda>p. - int (count_value (snd p))) x (sort_key (\<lambda>p. - int (count_value (snd p))) xs)"
    by (intro insert_by_counts) simp_all
  then show ?case using ih by (simp add: js_sort_def sort_key_def)
qed

lemma set_Object_entries: "set (Object_entries obj) = set obj"
  by (auto simp: Object_entries_def)

lemma prefix_filter_take: "prefix (filter P (take n ys)) (filter P ys)"
proof -
  have "filter P ys = filter P (take n ys) @ filter P (drop n ys)"
    by (metis append_take_drop_id filter_append)
  then show ?thesis by (simp add: prefix_def)
qed

lemma sorted_take_drop:
  assumes "sorted_wrt (\<lambda>a b. f b \<le> (f a :: nat)) ys" "t \<in> set (take n ys)" "e \<in> set ys" "e \<notin> set (take n ys)"
  shows "f e \<le> f t"
proof -
  have "sorted_wrt (\<lambda>a b. f b \<le> f a) (take n ys @ drop n ys)" using assms(1) by simp
  then have "\<forall>x\<in>set (take n ys). \<forall>y\<in>set (drop n ys). f y \<le> f x"
    unfolding sorted_wrt_append by blast
  moreover have "e \<in> set (drop n ys)"
    using assms(3,4) by (metis Un_iff append_take_drop_id set_append)
  ultimately show ?thesis using assms(2) by blast
qed

text \<open>
  When no record the window filter kept has a location under which something is
  inherited, the list of top locations has at most 5 entries, in descending order of
  count; entries of equal count are in the order in which \<open>Object.entries\<close> lists them;
  the count of an entry is the number of kept records at that location; and no entry
  left out has a greater count than an entry of the list.
\<close>

lemma top_locations_sorted_when_plain:
  fixes h timeRange captures
  defines "kept \<equiv> window_filter (clock h) 0 timeRange captures"
  defines "entries \<equiv> Object_entries (count_truthy (\<lambda>c. location (data c)) kept)"
  defines "listed \<equiv> topLocations (analytics h timeRange captures)"
  assumes plain: "\<forall>c\<in>set kept. inherited_text (location (data c)) = None"
  shows "length listed \<le> 5"
    and "sorted_wrt (\<lambda>a b. count_value (snd a) \<ge> count_value (snd b)) listed"
    and "prefix (filter (\<lambda>e. snd e = Num n) listed) (filter (\<lambda>e. snd e = Num n) entries)"
    and "e \<in> set listed \<Longrightarrow> fst e \<noteq> [] \<and> snd e = Num (occurrences (\<lambda>c. location (data c)) (fst e) kept)"
    and "e \<in> set entries - set listed \<Longrightarrow> t \<in> set listed \<Longrightarrow> count_value (snd e) \<le> count_value (snd t)"
proof -
  define lc where "lc = count_truthy (\<lambda>c. location (data c)) kept"
  define f where "f = (\<lambda>p :: string \<times> jsval. - int (count_value (snd p)))"
  define ys where "ys = js_sort by_count (Object_entries lc)"
  have en: "entries = Object_entries lc" by (simp add: entries_def lc_def)
  have listed: "listed = take 5 ys"
    by (simp add: listed_def analytics_fields ys_def lc_def kept_def)
  have pl: "\<forall>c\<in>set kept. plain (location (data c))" using plain by (simp add: plain_def)
  have el: "fst e \<noteq> [] \<and> snd e = Num (occurrences (\<lambda>c. location (data c)) (fst e) kept)"
    if "e \<in> set lc" for e
    using entries_plain [OF pl, of e] that by (simp add: lc_def)
  then have "\<forall>e\<in>set (Object_entries lc). is_count (snd e)"
    by (simp add: set_Object_entries)
  then have ac: "list_all is_count (map snd (Object_entries lc))"
    by (simp add: list_all_iff)
  have ys: "ys = sort_key f (Object_entries lc)"
    unfolding ys_def f_def by (rule js_sort_counts [OF ac])
  have se: "set ys = set lc" by (simp add: ys set_Object_entries)
  have "sorted (map f ys)" by (simp add: ys)
  then have s: "sorted_wrt (\<lambda>a b. count_value (snd b) \<le> count_value (snd a)) ys"
    by (simp add: sorted_map f_def)
  show "length listed \<le> 5" by (simp add: listed)
  show "sorted_wrt (\<lambda>a b. count_value (snd a) \<ge> count_value (snd b)) listed"
    unfolding listed using s by (rule sorted_wrt_take)
  have st: "filter (\<lambda>e. snd e = Num n) ys = filter (\<lambda>e. snd e = Num n) (Object_entries lc)"
  proof -
    have c: "snd e = Num n \<longleftrightarrow> f e = - int n" if "e \<in> set lc" for e
      using el [OF that] by (auto simp: f_def)
    have "filter (\<lambda>e. snd e = Num n) ys = filter (\<lambda>e. f e = - int n) ys"
      by (rule filter_cong) (simp_all add: c se)
    also have "\<dots> = filter (\<lambda>e. f e = - int n) (Object_entries lc)"
      unfolding ys by (rule sort_key_stable)
    also have "\<dots> = filter (\<lambda>e. snd e = Num n) (Object_entries lc)"
      by (rule filter_cong) (simp_all add: c set_Object_entries)
    finally show ?thesis .
  qed
  show "prefix (filter (\<lambda>e. snd e = Num n) listed) (filter (\<lambda>e. snd e = Num n) entries)"
    using prefix_filter_take [of "\<lambda>e. snd e = Num n" 5 ys] by (simp add: listed en st)
  show "fst e \<noteq> [] \<and> snd e = Num (occurrences (\<lambda>c. location (data c)) (fst e) kept)"
    if "e \<in> set listed"
  proof -
    from that have "e \<in> set lc" using se unfolding listed by (metis in_set_takeD)
    then show ?thesis by (rule el)
  qed
  show "count_value (snd e) \<le> count_value (snd t)" if "e \<in> set entries - set listed" "t \<in> set listed"
    using that sorted_take_drop [OF s, of t 5 e] by (simp add: listed en se set_Object_entries)
qed

text \<open>
  Seven records at six plain locations: the list is capped at 5 and the four locations
  with one record each follow \<open>B\<close> in the order of their first record.
\<close>

lemma top_seven_locations:
  "topLocations (analytics sample_host ''7'' seven_locations)
     = [(''B'', Num 2), (''A'', Num 1), (''C'', Num 1), (''D'', Num 1), (''E'', Num 1)]"
  by code_simp

text \<open>
  C6. The claim that the list of top locations is in descending order of frequency count
  fails on the code for a location that names an inherited property. With the
  locations \<open>a\<close>, \<open>constructor\<close>, \<open>b\<close>, \<open>b\<close> the read of \<open>locationCounts["constructor"]\<close>
  finds the inherited function, so the entry of \<open>constructor\<close> becomes the function's
  text followed by \<open>1\<close> instead of the count 1. Every comparison with that entry gives
  \<open>NaN\<close>, and the list is not in descending order of count: \<open>a\<close>, at one record, comes
  before \<open>b\<close>, at two.
\<close>

theorem top_locations_inherited_key:
  "topLocations (analytics sample_host ''7'' inherited_locations)
     = [(''a'', Num 1), (''constructor'', Str ''function Object() { [native code] }1''), (''b'', Num 2)]
   \<and> occurrences (\<lambda>c. location (data c)) ''b'' (window_filter (clock sample_host) 0 ''7'' inherited_locations) = 2
   \<and> occurrences (\<lambda>c. location (data c)) ''constructor'' (window_filter (clock sample_host) 0 ''7'' inherited_locations) = 1
   \<and> by_count (''a'', Num 1) (''constructor'', Str ''function Object() { [native code] }1'') = NaN
   \<and> by_count (''constructor'', Str ''function Object() { [native code] }1'') (''b'', Num 2) = NaN"
  by code_simp

section \<open>Properties of the listing\<close>







lemma includes_empty: "includes_str hay []"
  by (cases hay) simp_all

lemma matchesSearch_empty: "matchesSearch [] capture"
  by (simp add: matchesSearch_def toLowerCase_def includes_empty)

text \<open>
  C7. With a status filter other than \<open>all\<close>, every record listed has that status. With
  \<open>all\<close> the list is the result of the search filter alone, and the whole list when the
  search term is empty. In general the list is the status filter applied to the result
  of the search filter: a record is listed exactly when it is fetched, matches the
  search and passes the status filter.
\<close>

theorem status_filter_and_search:
  "(statusFilter \<noteq> ''all'' \<longrightarrow>
      (\<forall>c \<in> set (filteredCaptures captures searchTerm statusFilter). status_str (status c) = statusFilter))
   \<and> filteredCaptures captures searchTerm ''all'' = filter (matchesSearch searchTerm) captures
   \<and> filteredCaptures captures [] ''all'' = captures
   \<and> filteredCaptures captures searchTerm statusFilter
       = filter (\<lambda>c. statusFilter = ''all'' \<or> status_str (status c) = statusFilter)
           (filter (matchesSearch searchTerm) captures)
   \<and> (\<forall>c. c \<in> set (filteredCaptures captures searchTerm statusFilter) \<longleftrightarrow>
          c \<in> set captures \<and> matchesSearch searchTerm c
          \<and> (statusFilter = ''all'' \<or> status_str (status c) = statusFilter))"
  by (auto simp: filteredCaptures_def matchesStatus_def matchesSearch_empty)

theorem status_filter_and_search_witness:
  "''approved'' \<noteq> ''all''
   \<and> filteredCaptures two_statuses ''LAKE'' ''approved'' = [sample_capture\<lparr>status := approved\<rparr>]
   \<and> status_str (status (sample_capture\<lparr>status := approved\<rparr>)) = ''approved''"
proof -
  have n: "''approved'' \<noteq> ''all''" by simp
  have f: "filteredCaptures two_statuses ''LAKE'' ''approved'' = [sample_capture\<lparr>status := approved\<rparr>]"
    by code_simp
  from status_filter_and_search [of "''approved''" two_statuses "''LAKE''"] n
  have "\<forall>c \<in> set (filteredCaptures two_statuses ''LAKE'' ''approved''). status_str (status c) = ''approved''"
    by blast
  with f have "status_str (status (sample_capture\<lparr>status := approved\<rparr>)) = ''approved''"
    by simp
  with n f show ?thesis by blast
qed

section \<open>Properties of the entry form\<close>












end
